theory Spec2Isabelle
  imports Complex_Main "HOL-Library.Multiset"
begin

section \<open>Data model of the conversion node\<close>

text \<open>
  The node \<^verbatim>\<open>velodyne_pointcloud::Convert\<close> (convert.cc) turns packet batches into
  point clouds. The value of a \<^verbatim>\<open>double\<close> or \<^verbatim>\<open>float\<close> is a real number; the two
  products the callback computes in \<^verbatim>\<open>double\<close> are rounded as binary64 rounds them (see
  \<open>to_double\<close> below). The azimuth of a point is an integer number of hundredths of a
  degree, so the cast \<^verbatim>\<open>(int)azimuth\<close> of the source leaves it as it is.
\<close>

record PointXYZIRADT =
  p_x :: real
  p_y :: real
  p_z :: real
  intensity :: real
  return_type :: nat
  ring :: nat
  azimuth :: int
  distance :: real
  time_stamp :: real

record PCLHeader =
  seq :: nat
  stamp :: nat
  frame_id :: string

record PointCloud =
  header :: PCLHeader
  points :: "PointXYZIRADT list"
  width :: nat
  height :: nat

text \<open>A default-constructed \<^verbatim>\<open>pcl::PointCloud\<close>.\<close>

definition empty_cloud :: PointCloud where
  "empty_cloud =
     \<lparr>header = \<lparr>seq = 0, stamp = 0, frame_id = []\<rparr>, points = [], width = 0, height = 0\<rparr>"

record Config =
  min_range :: real
  max_range :: real
  view_direction :: real
  view_width :: real
  scan_phase :: real

text \<open>
  Modelled from the spec: the decoder object \<^verbatim>\<open>velodyne_rawdata::RawData\<close> behind
  \<^verbatim>\<open>data_\<close> is not part of convert.cc. It keeps the range and view limits pushed by
  \<^verbatim>\<open>setParameters\<close>, answers \<^verbatim>\<open>getMinRange\<close> and \<^verbatim>\<open>getMaxRange\<close> from them, and
  knows the laser count.
\<close>

record RawData =
  raw_min_range :: real
  raw_max_range :: real
  raw_view_direction :: real
  raw_view_width :: real
  num_lasers :: nat

definition setParameters :: "real \<Rightarrow> real \<Rightarrow> real \<Rightarrow> real \<Rightarrow> RawData \<Rightarrow> RawData" where
  "setParameters mn mx vd vw d =
     d\<lparr>raw_min_range := mn, raw_max_range := mx, raw_view_direction := vd, raw_view_width := vw\<rparr>"

definition getMinRange :: "RawData \<Rightarrow> real" where
  "getMinRange d = raw_min_range d"

definition getMaxRange :: "RawData \<Rightarrow> real" where
  "getMaxRange d = raw_max_range d"

definition getNumLasers :: "RawData \<Rightarrow> nat" where
  "getNumLasers d = num_lasers d"

text \<open>The members of the class \<^verbatim>\<open>Convert\<close> that the two callbacks read or write (the source
  writes them with a trailing or leading underscore: \<^verbatim>\<open>config_\<close>, \<^verbatim>\<open>_overflow_buffer\<close>).\<close>

record Convert =
  config :: Config
  num_points_threshold :: int
  invalid_intensity_array :: "real list"
  overflow_buffer :: PointCloud
  data :: RawData
  save_test_vector :: bool
  convert_frame_id :: int

text \<open>
  What can go wrong: \<^verbatim>\<open>back()\<close> or \<^verbatim>\<open>front()\<close> on an empty vector, \<^verbatim>\<open>at(i)\<close> beyond the
  size of a vector, and \<^verbatim>\<open>get_value<T>\<close> on a parameter of another type.
\<close>

datatype fault = OutOfBounds | OutOfRange | ParameterTypeException

section \<open>Double arithmetic\<close>

text \<open>
  A product of two doubles is the exact product rounded to binary64: to the nearest
  multiple of the unit in the last place of its binade (53 significant bits), a tie going
  to the even multiple. \<open>binary_exponent v\<close> is the exponent of the binade of a positive
  \<open>v\<close>, found from the bit length of its integer part, or of the integer part of its
  inverse below 1. Overflow and subnormal numbers are left out: the values at hand, phases
  and time stamps, are far from both.
\<close>

fun bit_length :: "nat \<Rightarrow> nat" where
  "bit_length n = (if n = 0 then 0 else Suc (bit_length (n div 2)))"

declare bit_length.simps [simp del]

definition binary_exponent :: "real \<Rightarrow> int" where
  "binary_exponent v =
     (if 1 \<le> v then int (bit_length (nat \<lfloor>v\<rfloor>)) - 1
      else - int (bit_length (nat \<lceil>1 / v\<rceil> - 1)))"

definition pow2 :: "int \<Rightarrow> real" where
  "pow2 e = (if 0 \<le> e then 2 ^ nat e else 1 / 2 ^ nat (- e))"

definition round_half_even :: "real \<Rightarrow> int" where
  "round_half_even v =
     (if v - of_int \<lfloor>v\<rfloor> < 1 / 2 then \<lfloor>v\<rfloor>
      else if 1 / 2 < v - of_int \<lfloor>v\<rfloor> then \<lfloor>v\<rfloor> + 1
      else if even \<lfloor>v\<rfloor> then \<lfloor>v\<rfloor> else \<lfloor>v\<rfloor> + 1)"

definition to_double :: "real \<Rightarrow> real" where
  "to_double v =
     (if v = 0 then 0
      else sgn v * (of_int (round_half_even (\<bar>v\<bar> / pow2 (binary_exponent \<bar>v\<bar> - 52)))
                    * pow2 (binary_exponent \<bar>v\<bar> - 52)))"

section \<open>Integer arithmetic of the phase test\<close>

text \<open>Conversion to \<^verbatim>\<open>uint16_t\<close>, the remainder \<^verbatim>\<open>%\<close> of C++ (truncating), and \<^verbatim>\<open>round\<close>.\<close>

definition to_uint16 :: "int \<Rightarrow> int" where
  "to_uint16 v = v mod 65536"

definition c_rem :: "int \<Rightarrow> int \<Rightarrow> int" where
  "c_rem a b = sgn a * (\<bar>a\<bar> mod \<bar>b\<bar>)"

definition c_round :: "real \<Rightarrow> int" where
  "c_round v = (if 0 \<le> v then \<lfloor>v + 1 / 2\<rfloor> else \<lceil>v - 1 / 2\<rceil>)"

text \<open>\<^verbatim>\<open>int phase = (uint16_t)round(config_.scan_phase*100);\<close>\<close>

definition phase_of :: "real \<Rightarrow> int" where
  "phase_of sp = to_uint16 (c_round (to_double (sp * 100)))"

text \<open>
  \<^verbatim>\<open>uint16_t current_azimuth = (int)p.azimuth;\<close>
  \<^verbatim>\<open>uint16_t phase_diff = (36000 + current_azimuth - phase) % 36000;\<close>
\<close>

definition phase_diff_of :: "int \<Rightarrow> int \<Rightarrow> int" where
  "phase_diff_of phase az = to_uint16 (c_rem (36000 + to_uint16 az - phase) 36000)"

section \<open>The overflow loop of processScan\<close>

text \<open>
  The loop moves the last point of the working buffer to the overflow buffer while the
  phase difference is below 18000. After \<^verbatim>\<open>pop_back\<close> it reads \<^verbatim>\<open>back()\<close> again, before
  the loop condition looks at the size: on an emptied buffer that read is out of bounds.
\<close>

function overflow_loop ::
  "int \<Rightarrow> int \<Rightarrow> PointXYZIRADT list \<Rightarrow> PointXYZIRADT list \<Rightarrow>
   fault + (PointXYZIRADT list \<times> PointXYZIRADT list)" where
  "overflow_loop phase phase_diff pts ovf =
     (if phase_diff < 18000 \<and> 0 < length pts then
        (if butlast pts = [] then Inl OutOfBounds
         else overflow_loop phase (phase_diff_of phase (azimuth (last (butlast pts))))
                (butlast pts) (ovf @ [last pts]))
      else Inr (pts, ovf))"
  by pat_completeness auto
termination
  by (relation "measure (\<lambda>(phase, phase_diff, pts, ovf). length pts)") auto

declare overflow_loop.simps [simp del]

text \<open>Lines 241 to 254: the guard on a non-empty buffer, the loop, the width of the overflow.\<close>

definition segment ::
  "real \<Rightarrow> PointXYZIRADT list \<Rightarrow> PointCloud \<Rightarrow> fault + (PointXYZIRADT list \<times> PointCloud)" where
  "segment sp pts ovf =
     (let phase = phase_of sp in
      if 0 < length pts then
        (case overflow_loop phase (phase_diff_of phase (azimuth (last pts))) pts (points ovf) of
           Inl e \<Rightarrow> Inl e
         | Inr (kept, moved) \<Rightarrow> Inr (kept, ovf\<lparr>points := moved, width := length moved\<rparr>))
      else Inr (pts, ovf))"

section \<open>Reconfiguration: paramCallback\<close>

text \<open>
  A parameter update is the vector of \<^verbatim>\<open>rclcpp::Parameter\<close> handed to the callback: names
  with typed values. \<^verbatim>\<open>find_if\<close> yields the first parameter of a name, as \<^const>\<open>map_of\<close>
  does.
\<close>

datatype ParameterValue = PDouble real | PInteger int | PDoubleArray "real list"

type_synonym Parameter = "string \<times> ParameterValue"

text \<open>
  \<^verbatim>\<open>get_param\<close> at type double and at type int: the new value when the name is present
  (the source then assigns it and returns true), nothing when it is absent (false).
\<close>

definition get_param_double :: "Parameter list \<Rightarrow> string \<Rightarrow> fault + real option" where
  "get_param_double p name =
     (case map_of p name of
        None \<Rightarrow> Inr None
      | Some (PDouble v) \<Rightarrow> Inr (Some v)
      | Some _ \<Rightarrow> Inl ParameterTypeException)"

definition get_param_int :: "Parameter list \<Rightarrow> string \<Rightarrow> fault + int option" where
  "get_param_int p name =
     (case map_of p name of
        None \<Rightarrow> Inr None
      | Some (PInteger v) \<Rightarrow> Inr (Some v)
      | Some _ \<Rightarrow> Inl ParameterTypeException)"

text \<open>
  The condition of the first \<^verbatim>\<open>if\<close>: four \<^verbatim>\<open>get_param\<close> calls joined by \<^verbatim>\<open>||\<close>, which
  stops at the first call that returns true.
\<close>

definition range_view_params :: "Parameter list \<Rightarrow> Config \<Rightarrow> fault + (bool \<times> Config)" where
  "range_view_params p cfg =
     (case get_param_double p ''min_range'' of
        Inl e \<Rightarrow> Inl e
      | Inr (Some v) \<Rightarrow> Inr (True, cfg\<lparr>min_range := v\<rparr>)
      | Inr None \<Rightarrow>
     (case get_param_double p ''max_range'' of
        Inl e \<Rightarrow> Inl e
      | Inr (Some v) \<Rightarrow> Inr (True, cfg\<lparr>max_range := v\<rparr>)
      | Inr None \<Rightarrow>
     (case get_param_double p ''view_direction'' of
        Inl e \<Rightarrow> Inl e
      | Inr (Some v) \<Rightarrow> Inr (True, cfg\<lparr>view_direction := v\<rparr>)
      | Inr None \<Rightarrow>
     (case get_param_double p ''view_width'' of
        Inl e \<Rightarrow> Inl e
      | Inr (Some v) \<Rightarrow> Inr (True, cfg\<lparr>view_width := v\<rparr>)
      | Inr None \<Rightarrow> Inr (False, cfg)))))"

text \<open>\<^verbatim>\<open>for (i = 0; i < invalid_intensity_double.size(); ++i) array.at(i) = double[i];\<close>\<close>

fun fill_at :: "real list \<Rightarrow> nat \<Rightarrow> real list \<Rightarrow> fault + real list" where
  "fill_at arr i [] = Inr arr"
| "fill_at arr i (v # vs) =
     (if i < length arr then fill_at (arr[i := v]) (Suc i) vs else Inl OutOfRange)"

definition invalid_intensity_param :: "Parameter list \<Rightarrow> fault + real list" where
  "invalid_intensity_param p =
     (case map_of p ''invalid_intensity'' of
        None \<Rightarrow> Inr []
      | Some (PDoubleArray a) \<Rightarrow> Inr a
      | Some _ \<Rightarrow> Inl ParameterTypeException)"

text \<open>The callback returns the updated node and \<^verbatim>\<open>result.successful\<close>.\<close>

definition paramCallback :: "Parameter list \<Rightarrow> Convert \<Rightarrow> fault + (Convert \<times> bool)" where
  "paramCallback p node =
     (case range_view_params p (config node) of
        Inl e \<Rightarrow> Inl e
      | Inr (refresh, cfg) \<Rightarrow>
     (let d = (if refresh
               then setParameters (min_range cfg) (max_range cfg) (view_direction cfg)
                      (view_width cfg) (data node)
               else data node) in
      case get_param_int p ''num_points_threshold'' of
        Inl e \<Rightarrow> Inl e
      | Inr threshold \<Rightarrow>
     (case get_param_double p ''scan_phase'' of
        Inl e \<Rightarrow> Inl e
      | Inr phase \<Rightarrow>
     (case invalid_intensity_param p of
        Inl e \<Rightarrow> Inl e
      | Inr invalid_intensity_double \<Rightarrow>
     (case fill_at (replicate (getNumLasers d) 0) 0 invalid_intensity_double of
        Inl e \<Rightarrow> Inl e
      | Inr arr \<Rightarrow>
          Inr (node\<lparr>config := (case phase of None \<Rightarrow> cfg | Some v \<Rightarrow> cfg\<lparr>scan_phase := v\<rparr>),
                    num_points_threshold :=
                      (case threshold of None \<Rightarrow> num_points_threshold node | Some v \<Rightarrow> v),
                    invalid_intensity_array := arr,
                    data := d\<rparr>, True))))))"

section \<open>The processing cycle: processScan\<close>

text \<open>
  The functions that processScan calls and that live outside convert.cc are parameters of
  the model: the decoder's \<^verbatim>\<open>unpack_all\<close> (the points it appends for a packet batch), the
  extractors of func.h, the conversion to the short point type, and the library conversion
  of a nanosecond count to a PCL stamp.
\<close>

record ('pkt, 'xyzir) externals =
  unpack_all :: "RawData \<Rightarrow> 'pkt list \<Rightarrow> PointXYZIRADT list"
  extractValidPoints :: "PointCloud \<Rightarrow> real \<Rightarrow> real \<Rightarrow> PointCloud"
  sortZeroIndex :: "PointCloud \<Rightarrow> nat \<Rightarrow> PointCloud"
  extractInvalidNearPointsFiltered :: "PointCloud \<Rightarrow> real list \<Rightarrow> nat \<Rightarrow> int \<Rightarrow> PointCloud"
  convert :: "PointCloud \<Rightarrow> 'xyzir"
  toPCL_time :: "int \<Rightarrow> nat"

text \<open>
  \<^verbatim>\<open>duration_cast\<close> of double seconds to whole nanoseconds: the product with 1e9 in
  \<^verbatim>\<open>double\<close>, then the conversion to an integer count, which truncates towards zero.
\<close>

definition toChronoNanoSeconds :: "real \<Rightarrow> int" where
  "toChronoNanoSeconds seconds =
     (if 0 \<le> to_double (seconds * 1000000000) then \<lfloor>to_double (seconds * 1000000000)\<rfloor>
      else \<lceil>to_double (seconds * 1000000000)\<rceil>)"

text \<open>\<^verbatim>\<open>get_subscription_count()\<close> of the five publishers, as seen by one cycle.\<close>

record subscribers =
  velodyne_points_pub :: nat
  velodyne_points_ex_pub :: nat
  velodyne_points_invalid_near_pub :: nat
  velodyne_points_combined_ex_pub :: nat
  marker_array_pub :: nat

text \<open>The calls a cycle makes to its collaborators, in order, and what it publishes.\<close>

datatype topic =
  velodyne_points | velodyne_points_ex | velodyne_points_invalid_near
  | velodyne_points_combined_ex | velodyne_model_marker

datatype call =
  UnpackAll | WriteInPackets | WriteOutPointClouds | ExtractValidPoints | SortZeroIndex
  | ExtractInvalidNearPointsFiltered | ConvertXYZIR | CombineClouds | Publish topic

record 'xyzir cycle =
  scan_points_xyziradt :: PointCloud
  valid_points_xyziradt :: PointCloud
  invalid_near_points_filtered_xyziradt :: PointCloud
  combined_points_xyziradt :: PointCloud
  msg_velodyne_points :: "'xyzir option"
  msg_velodyne_points_ex :: "PointCloud option"
  msg_velodyne_points_invalid_near :: "'xyzir option"
  msg_velodyne_points_combined_ex :: "PointCloud option"
  msg_velodyne_model_marker :: bool

text \<open>
  Lines 219 to 266, run when some point cloud output has a subscriber: the overflow buffer
  goes back in front of the newly decoded points (in reverse, which restores their order),
  the overflow loop cuts the scan, and the scan takes its stamp from \<^verbatim>\<open>front()\<close>, which is
  out of bounds on an empty scan.
\<close>

definition assemble_scan ::
  "('pkt, 'xyzir) externals \<Rightarrow> PCLHeader \<Rightarrow> 'pkt list \<Rightarrow> Convert \<Rightarrow>
   call list \<times> (fault + (Convert \<times> PointCloud))" where
  "assemble_scan ext hdr packets node =
     (let pts = rev (points (overflow_buffer node)) @ unpack_all ext (data node) packets;
          ovf = (overflow_buffer node)\<lparr>points := [], width := 0, height := 1\<rparr>;
          dump = (if save_test_vector node then [WriteInPackets, WriteOutPointClouds] else []);
          frame = (if save_test_vector node then convert_frame_id node + 1
                   else convert_frame_id node)
      in (UnpackAll # dump,
          case segment (scan_phase (config node)) pts ovf of
            Inl e \<Rightarrow> Inl e
          | Inr (kept, ovf') \<Rightarrow>
              (case kept of
                 [] \<Rightarrow> Inl OutOfBounds
               | first # rest \<Rightarrow>
                   Inr (node\<lparr>overflow_buffer := ovf', convert_frame_id := frame\<rparr>,
                        \<lparr>header = hdr\<lparr>stamp :=
                                     toPCL_time ext (toChronoNanoSeconds (time_stamp first))\<rparr>,
                         points = kept, width = length kept, height = 1\<rparr>))))"

text \<open>Lines 269 to 331: each view behind the test of its subscriber counts.\<close>

definition publish_views ::
  "('pkt, 'xyzir) externals \<Rightarrow> subscribers \<Rightarrow> Convert \<Rightarrow> PointCloud \<Rightarrow>
   call list \<times> 'xyzir cycle" where
  "publish_views ext subs node scan =
     (let n_valid = velodyne_points_pub subs;
          n_ex = velodyne_points_ex_pub subs;
          n_near = velodyne_points_invalid_near_pub subs;
          n_comb = velodyne_points_combined_ex_pub subs;
          want_valid = (0 < n_valid \<or> 0 < n_ex \<or> 0 < n_comb);
          valid = (if want_valid
                   then extractValidPoints ext scan (getMinRange (data node))
                          (getMaxRange (data node))
                   else empty_cloud);
          calls_valid =
            (if want_valid
             then ExtractValidPoints
                  # (if 0 < n_valid then [ConvertXYZIR, Publish velodyne_points] else [])
                  @ (if 0 < n_ex then [Publish velodyne_points_ex] else [])
             else []);
          want_near = (0 < n_near \<or> 0 < n_comb);
          lasers = getNumLasers (data node);
          near = (if want_near
                  then extractInvalidNearPointsFiltered ext (sortZeroIndex ext scan lasers)
                         (invalid_intensity_array node) lasers (num_points_threshold node)
                  else empty_cloud);
          calls_near =
            (if want_near
             then [SortZeroIndex, ExtractInvalidNearPointsFiltered]
                  @ (if 0 < n_near then [ConvertXYZIR, Publish velodyne_points_invalid_near]
                     else [])
             else []);
          combined = (if 0 < n_comb
                      then empty_cloud\<lparr>points := points valid @ points near,
                                        header := header valid,
                                        height := 1,
                                        width := length (points valid @ points near)\<rparr>
                      else empty_cloud);
          calls_comb =
            (if 0 < n_comb then [CombineClouds, Publish velodyne_points_combined_ex] else []);
          calls_marker =
            (if 0 < marker_array_pub subs then [Publish velodyne_model_marker] else [])
      in (calls_valid @ calls_near @ calls_comb @ calls_marker,
          \<lparr>scan_points_xyziradt = scan,
           valid_points_xyziradt = valid,
           invalid_near_points_filtered_xyziradt = near,
           combined_points_xyziradt = combined,
           msg_velodyne_points = (if 0 < n_valid then Some (convert ext valid) else None),
           msg_velodyne_points_ex = (if 0 < n_ex then Some valid else None),
           msg_velodyne_points_invalid_near =
             (if 0 < n_near then Some (convert ext near) else None),
           msg_velodyne_points_combined_ex = (if 0 < n_comb then Some combined else None),
           msg_velodyne_model_marker = (0 < marker_array_pub subs)\<rparr>))"

text \<open>
  The callback: the first block only when one of the four point cloud outputs has a
  subscriber, then the views. The result is the list of calls made, and either the fault
  that stopped the cycle or the node after the cycle with what the cycle computed.
\<close>

definition processScan ::
  "('pkt, 'xyzir) externals \<Rightarrow> subscribers \<Rightarrow> PCLHeader \<Rightarrow> 'pkt list \<Rightarrow> Convert \<Rightarrow>
   call list \<times> (fault + (Convert \<times> 'xyzir cycle))" where
  "processScan ext subs hdr packets node =
     (if 0 < velodyne_points_pub subs \<or> 0 < velodyne_points_ex_pub subs
         \<or> 0 < velodyne_points_invalid_near_pub subs
         \<or> 0 < velodyne_points_combined_ex_pub subs
      then
        (case assemble_scan ext hdr packets node of
           (calls, Inl e) \<Rightarrow> (calls, Inl e)
         | (calls, Inr (node', scan)) \<Rightarrow>
             (calls @ fst (publish_views ext subs node' scan),
              Inr (node', snd (publish_views ext subs node' scan))))
      else
        (fst (publish_views ext subs node empty_cloud),
         Inr (node, snd (publish_views ext subs node empty_cloud))))"

text \<open>The test of lines 214 to 218, and a run of the callback over the messages received.\<close>

definition has_cloud_subscriber :: "subscribers \<Rightarrow> bool" where
  "has_cloud_subscriber subs \<longleftrightarrow>
     0 < velodyne_points_pub subs \<or> 0 < velodyne_points_ex_pub subs
     \<or> 0 < velodyne_points_invalid_near_pub subs \<or> 0 < velodyne_points_combined_ex_pub subs"

fun process_all ::
  "('pkt, 'xyzir) externals \<Rightarrow> Convert \<Rightarrow> (subscribers \<times> PCLHeader \<times> 'pkt list) list \<Rightarrow>
   fault + (Convert \<times> 'xyzir cycle list)" where
  "process_all ext node [] = Inr (node, [])"
| "process_all ext node ((subs, hdr, packets) # rest) =
     (case snd (processScan ext subs hdr packets node) of
        Inl e \<Rightarrow> Inl e
      | Inr (node', c) \<Rightarrow>
          (case process_all ext node' rest of
             Inl e \<Rightarrow> Inl e
           | Inr (node'', cs) \<Rightarrow> Inr (node'', c # cs)))"

text \<open>The points decoded over a run: those of the cycles that reach the decoder.\<close>

fun decoded_in ::
  "('pkt, 'xyzir) externals \<Rightarrow> RawData \<Rightarrow> (subscribers \<times> PCLHeader \<times> 'pkt list) list \<Rightarrow>
   PointXYZIRADT multiset" where
  "decoded_in ext d [] = {#}"
| "decoded_in ext d ((subs, hdr, packets) # rest) =
     (if has_cloud_subscriber subs then mset (unpack_all ext d packets) else {#})
     + decoded_in ext d rest"

section \<open>The segmenter as the specification words it\<close>

text \<open>
  Section 4.1 of the specification: the phase in hundredths of a degree, the difference of
  an azimuth to it, and the backward scan that moves the last point to the carry-over
  while the buffer is non-empty and the difference is below 18000.
\<close>

definition spec_phase :: "real \<Rightarrow> int" where
  "spec_phase phaseDeg = round (phaseDeg * 100) mod 36000"

definition spec_diff :: "int \<Rightarrow> int \<Rightarrow> int" where
  "spec_diff phase az = (36000 + az - phase) mod 36000"

function spec_scan_backward ::
  "int \<Rightarrow> PointXYZIRADT list \<Rightarrow> PointXYZIRADT list \<Rightarrow>
   PointXYZIRADT list \<times> PointXYZIRADT list" where
  "spec_scan_backward phase rawPoints carry =
     (if rawPoints \<noteq> [] \<and> spec_diff phase (azimuth (last rawPoints)) < 18000
      then spec_scan_backward phase (butlast rawPoints) (carry @ [last rawPoints])
      else (rawPoints, carry))"
  by pat_completeness auto
termination
  by (relation "measure (\<lambda>(phase, rawPoints, carry). length rawPoints)") auto

declare spec_scan_backward.simps [simp del]

definition spec_segment ::
  "PointXYZIRADT list \<Rightarrow> real \<Rightarrow> PointXYZIRADT list \<times> PointXYZIRADT list" where
  "spec_segment rawPoints phaseDeg = spec_scan_backward (spec_phase phaseDeg) rawPoints []"

section \<open>Sample inputs\<close>

text \<open>
  Concrete inputs on which the model is run below: a point at a given azimuth and time,
  a node as the constructor leaves it (default parameters, two lasers), stand-ins for the
  collaborators (packets that already hold their points, a range filter, a near filter
  that keeps the points at distance zero), and subscriber counts.
\<close>

definition point_at :: "int \<Rightarrow> real \<Rightarrow> PointXYZIRADT" where
  "point_at az t =
     \<lparr>p_x = 0, p_y = 0, p_z = 0, intensity = 0, return_type = 0, ring = 0,
      azimuth = az, distance = 1, time_stamp = t\<rparr>"

definition sample_node :: Convert where
  "sample_node =
     \<lparr>config = \<lparr>min_range = 9 / 10, max_range = 130, view_direction = 0, view_width = 6,
                scan_phase = 0\<rparr>,
      num_points_threshold = 300,
      invalid_intensity_array = [5, 5],
      overflow_buffer = empty_cloud\<lparr>height := 1\<rparr>,
      data = \<lparr>raw_min_range = 9 / 10, raw_max_range = 130, raw_view_direction = 0,
              raw_view_width = 6, num_lasers = 2\<rparr>,
      save_test_vector = False,
      convert_frame_id = 0\<rparr>"

definition sample_externals :: "(PointXYZIRADT list, PointCloud) externals" where
  "sample_externals =
     \<lparr>unpack_all = (\<lambda>d packets. concat packets),
      extractValidPoints = (\<lambda>c mn mx.
         c\<lparr>points := filter (\<lambda>p. mn \<le> distance p \<and> distance p \<le> mx) (points c),
           width := length (filter (\<lambda>p. mn \<le> distance p \<and> distance p \<le> mx) (points c)),
           height := 1\<rparr>),
      sortZeroIndex = (\<lambda>c n. c),
      extractInvalidNearPointsFiltered = (\<lambda>c arr n th.
         c\<lparr>points := filter (\<lambda>p. distance p = 0) (points c),
           width := length (filter (\<lambda>p. distance p = 0) (points c)),
           height := 1\<rparr>),
      convert = (\<lambda>c. c),
      toPCL_time = (\<lambda>ns. nat (ns div 1000))\<rparr>"

definition sample_header :: PCLHeader where
  "sample_header = \<lparr>seq = 0, stamp = 7, frame_id = ''velodyne''\<rparr>"

definition no_subscribers :: subscribers where
  "no_subscribers =
     \<lparr>velodyne_points_pub = 0, velodyne_points_ex_pub = 0,
      velodyne_points_invalid_near_pub = 0, velodyne_points_combined_ex_pub = 0,
      marker_array_pub = 0\<rparr>"

definition points_only :: subscribers where
  "points_only = no_subscribers\<lparr>velodyne_points_pub := 1\<rparr>"

definition near_only :: subscribers where
  "near_only = no_subscribers\<lparr>velodyne_points_invalid_near_pub := 1\<rparr>"

definition combined_only :: subscribers where
  "combined_only = no_subscribers\<lparr>velodyne_points_combined_ex_pub := 1\<rparr>"

text \<open>One packet of three points, the second at distance zero, and a run of three messages.\<close>

definition two_points :: "PointXYZIRADT list list" where
  "two_points = [[point_at 35900 1, (point_at 35950 2)\<lparr>distance := 0\<rparr>, point_at 100 3]]"

text \<open>
  One packet of three points with epoch-sized time stamps a quarter, three quarters and
  five quarters of a second after 1600000000 s.
\<close>

definition epoch_points :: "PointXYZIRADT list list" where
  "epoch_points =
     [[point_at 35900 (6400000001 / 4), point_at 35950 (6400000003 / 4),
       point_at 100 (6400000005 / 4)]]"

definition three_messages ::
  "(subscribers \<times> PCLHeader \<times> PointXYZIRADT list list) list" where
  "three_messages =
     [(points_only, sample_header, [[point_at 35900 1, point_at 100 2], [point_at 200 3]]),
      (no_subscribers, sample_header, [[point_at 250 4]]),
      (points_only, sample_header, [[point_at 300 5, point_at 35950 6, point_at 50 7]])]"

text \<open>The equations that evaluate a cycle on the sample inputs.\<close>

lemmas sample_defs =
  sample_externals_def sample_node_def sample_header_def no_subscribers_def points_only_def
  near_only_def combined_only_def point_at_def empty_cloud_def two_points_def
  three_messages_def epoch_points_def

lemmas cycle_defs =
  processScan_def assemble_scan_def publish_views_def segment_def Let_def
  to_uint16_def phase_diff_of_def c_rem_def overflow_loop.simps
  getMinRange_def getMaxRange_def getNumLasers_def

lemmas double_defs =
  to_double_def round_half_even_def pow2_def binary_exponent_def bit_length.simps

section \<open>Facts about the phase arithmetic and the overflow loop\<close>

text \<open>
  For an azimuth that fits \<^verbatim>\<open>uint16_t\<close> and a phase up to 36000 the C++ expression is the
  mathematical one.
\<close>

lemma phase_diff_of_eq:
  assumes "0 \<le> az" "az < 65536" "0 \<le> phase" "phase \<le> 36000"
  shows "phase_diff_of phase az = (36000 + az - phase) mod 36000"
proof -
  let ?v = "36000 + az - phase"
  have v: "0 \<le> ?v" using assms by simp
  have "c_rem ?v 36000 = ?v mod 36000"
  proof (cases "?v = 0")
    case True
    then show ?thesis by (simp add: c_rem_def)
  next
    case False
    with v have "0 < ?v" by simp
    then show ?thesis by (simp add: c_rem_def)
  qed
  moreover have "to_uint16 (?v mod 36000) = ?v mod 36000"
  proof -
    have "0 \<le> ?v mod 36000" "?v mod 36000 < 36000" by simp_all
    then show ?thesis by (simp add: to_uint16_def)
  qed
  moreover have "to_uint16 az = az" using assms by (simp add: to_uint16_def)
  ultimately show ?thesis by (simp add: phase_diff_of_def)
qed

text \<open>
  The rounding to binary64: the binade found holds the value, the rounded value is within
  half a unit in the last place, and a value that is a whole number of units is kept. The
  product of the double next to 0.015 with 100 rounds up to 1.5, and an epoch-sized time
  stamp with a quarter second loses 128 nanoseconds.
\<close>

lemma bit_length_bounds:
  "0 < n \<Longrightarrow> 2 ^ (bit_length n - 1) \<le> n \<and> n < 2 ^ bit_length n"
proof (induction n rule: bit_length.induct)
  case (1 n)
  show ?case
  proof (cases "n div 2 = 0")
    case True
    with "1.prems" have "n = 1" by (simp add: div_eq_0_iff) 
    then show ?thesis by (simp add: bit_length.simps)
  next
    case False
    then have pos: "0 < n div 2" by simp
    with "1.IH" "1.prems" have ih: "2 ^ (bit_length (n div 2) - 1) \<le> n div 2"
      "n div 2 < 2 ^ bit_length (n div 2)" by auto
    from pos have bl: "0 < bit_length (n div 2)" by (simp add: bit_length.simps)
    have b: "bit_length n = Suc (bit_length (n div 2))"
      using "1.prems" by (subst bit_length.simps) simp
    from bl obtain k where k: "bit_length (n div 2) = Suc k" by (cases "bit_length (n div 2)") auto
    from ih have "2 * 2 ^ k \<le> 2 * (n div 2)" by (simp add: k)
    also have "\<dots> \<le> n" by simp
    finally have lo: "2 ^ (bit_length n - 1) \<le> n" by (simp add: b k)
    from ih(2) have "n div 2 + 1 \<le> 2 ^ bit_length (n div 2)" by simp
    then have "2 * (n div 2) + 2 \<le> 2 * 2 ^ bit_length (n div 2)" by simp
    moreover have "n < 2 * (n div 2) + 2" by presburger
    ultimately have "n < 2 ^ bit_length n" by (simp add: b)
    with lo show ?thesis by simp
  qed
qed

lemma pow2_pos: "0 < pow2 e"
  by (simp add: pow2_def)

lemma pow2_Suc: "pow2 (e + 1) = 2 * pow2 e"
proof (cases "0 \<le> e")
  case True
  then have "nat (e + 1) = Suc (nat e)" by simp
  with True show ?thesis by (simp add: pow2_def)
next
  case False
  then have "nat (- e) = Suc (nat (- (e + 1)))" by simp
  with False show ?thesis by (simp add: pow2_def)
qed

lemma binary_exponent_bounds:
  assumes "0 < v"
  shows "pow2 (binary_exponent v) \<le> v \<and> v < pow2 (binary_exponent v + 1)"
proof (cases "1 \<le> v")
  case True
  define n where "n = nat \<lfloor>v\<rfloor>"
  from True have n: "0 < n" "real n \<le> v" "v < real n + 1"
    by (simp_all add: n_def)
  from bit_length_bounds [OF n(1)] have b: "2 ^ (bit_length n - 1) \<le> n" "n < 2 ^ bit_length n"
    by simp_all
  from n(1) have bl: "0 < bit_length n" by (simp add: bit_length.simps)
  have e: "binary_exponent v = int (bit_length n) - 1"
    using True by (simp add: binary_exponent_def n_def)
  have "pow2 (binary_exponent v) = 2 ^ (bit_length n - 1)"
    using bl by (simp add: e pow2_def nat_diff_distrib)
  also have "\<dots> \<le> real n"
  proof -
    from b(1) have "real (2 ^ (bit_length n - 1)) \<le> real n" by (rule of_nat_mono)
    then show ?thesis by simp
  qed
  finally have lo: "pow2 (binary_exponent v) \<le> v" using n(2) by simp
  have "n + 1 \<le> 2 ^ bit_length n" using b(2) by simp
  then have "real (n + 1) \<le> real (2 ^ bit_length n)" by (rule of_nat_mono)
  then have "real n + 1 \<le> 2 ^ bit_length n" by simp
  with n(3) have "v < 2 ^ bit_length n" by simp
  moreover have "pow2 (binary_exponent v + 1) = 2 ^ bit_length n"
    by (simp add: e pow2_def)
  ultimately show ?thesis using lo by simp
next
  case False
  with assms have v: "0 < v" "v < 1" by simp_all
  define c where "c = \<lceil>1 / v\<rceil>"
  define m where "m = nat c - 1"
  define k where "k = bit_length m"
  from v have y: "1 < 1 / v" by simp
  then have c2: "2 \<le> c" unfolding c_def by linarith
  have cy: "1 / v \<le> of_int c" "of_int c - 1 < 1 / v" unfolding c_def by linarith+
  from c2 have m: "0 < m" "int m = c - 1" by (simp_all add: m_def)
  from bit_length_bounds [OF m(1)] have b: "2 ^ (k - 1) \<le> m" "m < 2 ^ k"
    by (simp_all add: k_def)
  from m(1) have kpos: "0 < k" by (simp add: k_def bit_length.simps)
  have e: "binary_exponent v = - int k"
    using False by (simp add: binary_exponent_def c_def m_def k_def)
  have "m + 1 \<le> 2 ^ k" using b(2) by simp
  then have "real (m + 1) \<le> real (2 ^ k)" by (rule of_nat_mono)
  then have "real m + 1 \<le> 2 ^ k" by simp
  moreover have "real_of_int c = real m + 1" using m(2) by simp
  ultimately have "1 / v \<le> 2 ^ k" using cy(1) by simp
  then have "1 \<le> 2 ^ k * v" using v(1) by (simp add: field_simps)
  then have lo: "1 / 2 ^ k \<le> v" by (simp add: field_simps)
  have "(2::real) ^ (k - 1) \<le> real m"
  proof -
    from b(1) have "real (2 ^ (k - 1)) \<le> real m" by (rule of_nat_mono)
    then show ?thesis by simp
  qed
  also have "\<dots> < 1 / v" using cy(2) m(2) by simp
  finally have "2 ^ (k - 1) * v < 1" using v(1) by (simp add: field_simps)
  then have hi: "v < 1 / 2 ^ (k - 1)" by (simp add: field_simps)
  have p1: "pow2 (binary_exponent v) = 1 / 2 ^ k"
    using kpos by (simp add: e pow2_def)
  have p2: "pow2 (binary_exponent v + 1) = 1 / 2 ^ (k - 1)"
  proof (cases "k = 1")
    case True
    then show ?thesis by (simp add: e pow2_def)
  next
    case False
    with kpos have "1 < k" by simp
    then have "nat (int k - 1) = k - 1" by simp
    with \<open>1 < k\<close> show ?thesis by (simp add: e pow2_def)
  qed
  from lo hi show ?thesis by (simp add: p1 p2)
qed

lemma round_half_even_error: "\<bar>of_int (round_half_even v) - v\<bar> \<le> 1 / 2"
proof -
  define d where "d = v - of_int \<lfloor>v\<rfloor>"
  have d: "0 \<le> d" "d < 1" unfolding d_def by linarith+
  have v: "v = of_int \<lfloor>v\<rfloor> + d" by (simp add: d_def)
  consider "d < 1 / 2" | "1 / 2 < d" | "d = 1 / 2" by linarith
  then show ?thesis
  proof cases
    case 1
    then have "round_half_even v = \<lfloor>v\<rfloor>" by (simp add: round_half_even_def d_def)
    with 1 d show ?thesis by (simp add: d_def)
  next
    case 2
    then have "round_half_even v = \<lfloor>v\<rfloor> + 1" by (simp add: round_half_even_def d_def)
    with 2 d show ?thesis by (simp add: d_def)
  next
    case 3
    then have "round_half_even v = \<lfloor>v\<rfloor> \<or> round_half_even v = \<lfloor>v\<rfloor> + 1"
      by (simp add: round_half_even_def d_def)
    with 3 show ?thesis by (auto simp: d_def)
  qed
qed

lemma round_half_even_int: "round_half_even (of_int m) = m"
  by (simp add: round_half_even_def)

lemma to_double_error:
  assumes "v \<noteq> 0"
  shows "\<bar>to_double v - v\<bar> \<le> pow2 (binary_exponent \<bar>v\<bar> - 52) / 2"
proof -
  define u where "u = pow2 (binary_exponent \<bar>v\<bar> - 52)"
  define r where "r = round_half_even (\<bar>v\<bar> / u)"
  have u: "0 < u" by (simp add: u_def pow2_pos)
  have td: "to_double v = sgn v * (of_int r * u)"
    using assms by (simp add: to_double_def u_def r_def)
  have "\<bar>to_double v - v\<bar> = \<bar>sgn v * (of_int r * u) - sgn v * \<bar>v\<bar>\<bar>"
    by (simp add: td sgn_real_def)
  also have "\<dots> = \<bar>sgn v\<bar> * \<bar>of_int r * u - \<bar>v\<bar>\<bar>"
    by (simp only: right_diff_distrib [symmetric] abs_mult)
  also have "\<dots> = \<bar>of_int r * u - \<bar>v\<bar>\<bar>" using assms by (simp add: sgn_real_def)
  also have "\<dots> = \<bar>of_int r - \<bar>v\<bar> / u\<bar> * u"
  proof -
    have "of_int r * u - \<bar>v\<bar> = (of_int r - \<bar>v\<bar> / u) * u" using u by (simp add: field_simps)
    then show ?thesis using u by (simp add: abs_mult)
  qed
  also have "\<dots> \<le> 1 / 2 * u"
    using round_half_even_error [of "\<bar>v\<bar> / u"] u unfolding r_def
    by (intro mult_right_mono) simp_all
  finally show ?thesis by (simp add: u_def)
qed

lemma to_double_exact:
  assumes "\<bar>v\<bar> = of_int m * pow2 (binary_exponent \<bar>v\<bar> - 52)"
  shows "to_double v = v"
proof (cases "v = 0")
  case True
  then show ?thesis by (simp add: to_double_def)
next
  case False
  define u where "u = pow2 (binary_exponent \<bar>v\<bar> - 52)"
  have u: "0 < u" by (simp add: u_def pow2_pos)
  from assms have "\<bar>v\<bar> = of_int m * u" by (simp only: u_def)
  then have "\<bar>v\<bar> / u = of_int m" using u by simp
  then have "round_half_even (\<bar>v\<bar> / u) = m" by (simp add: round_half_even_int)
  then have "to_double v = sgn v * (of_int m * u)"
    using False by (simp add: to_double_def u_def)
  also have "\<dots> = sgn v * \<bar>v\<bar>" using assms by (simp only: u_def)
  also have "\<dots> = v" by (simp add: sgn_real_def)
  finally show ?thesis .
qed

lemma to_double_samples:
  "to_double (8646911284551352 / 2 ^ 59 * 100) = 3 / 2"
  "to_double ((1600000000 + 1 / 4) * 1000000000) = 1600000000249999872"
  by (simp_all add: double_defs)

text \<open>
  For the double next to 0.015 the source computes the phase 2, where rounding the exact
  product gives 1.
\<close>

lemma phase_of_double_product:
  "phase_of (8646911284551352 / 2 ^ 59) = 2"
  "spec_phase (8646911284551352 / 2 ^ 59) = 1"
  by (simp_all add: phase_of_def double_defs c_round_def to_uint16_def spec_phase_def
      round_def)

text \<open>The phase and the nanosecond counts of the sample inputs.\<close>

lemma sample_values:
  "phase_of 0 = 0"
  "toChronoNanoSeconds 1 = 1000000000"
  "toChronoNanoSeconds 2 = 2000000000"
  "toChronoNanoSeconds (6400000001 / 4) = 1600000000249999872"
  by (simp_all add: phase_of_def c_round_def to_uint16_def toChronoNanoSeconds_def double_defs)

text \<open>
  The nanosecond count of a time stamp is the exact product with 1e9 up to the rounding of
  the double product and the truncation.
\<close>

lemma toChronoNanoSeconds_close:
  assumes "seconds \<noteq> 0"
  shows "\<bar>of_int (toChronoNanoSeconds seconds) - seconds * 1000000000\<bar>
         < 1 + pow2 (binary_exponent \<bar>seconds * 1000000000\<bar> - 52) / 2"
proof -
  define v where "v = seconds * 1000000000"
  define d where "d = to_double v"
  from assms have "v \<noteq> 0" by (simp add: v_def)
  then have e: "\<bar>d - v\<bar> \<le> pow2 (binary_exponent \<bar>v\<bar> - 52) / 2"
    unfolding d_def by (rule to_double_error)
  have t: "\<bar>of_int (toChronoNanoSeconds seconds) - d\<bar> < 1"
    unfolding toChronoNanoSeconds_def v_def [symmetric] d_def [symmetric]
    by (cases "0 \<le> d") (simp_all, linarith+)
  have "\<bar>of_int (toChronoNanoSeconds seconds) - v\<bar>
        \<le> \<bar>of_int (toChronoNanoSeconds seconds) - d\<bar> + \<bar>d - v\<bar>"
    by simp
  with e t show ?thesis unfolding v_def by linarith
qed

text \<open>When the phase of the source is the specified phase, it lies in 0 to 35999.\<close>

lemma phase_of_range:
  assumes "phase_of sp = spec_phase sp"
  shows "0 \<le> phase_of sp" and "phase_of sp \<le> 36000"
  using assms by (simp_all add: spec_phase_def)

text \<open>
  What the loop returns when it is entered as the source enters it, with the phase
  difference of the last point: the out-of-bounds read when every point is below 18000,
  and otherwise the buffer cut behind its last point at or above 18000.
\<close>

lemma overflow_loop_run:
  "pts \<noteq> [] \<Longrightarrow>
   overflow_loop phase (phase_diff_of phase (azimuth (last pts))) pts ovf =
     (if \<forall>p\<in>set pts. phase_diff_of phase (azimuth p) < 18000 then Inl OutOfBounds
      else Inr (rev (dropWhile (\<lambda>p. phase_diff_of phase (azimuth p) < 18000) (rev pts)),
                ovf @ takeWhile (\<lambda>p. phase_diff_of phase (azimuth p) < 18000) (rev pts)))"
proof (induction pts arbitrary: ovf rule: rev_induct)
  case Nil
  then show ?case by simp
next
  case (snoc x xs)
  show ?case
  proof (cases "xs = []")
    case True
    then show ?thesis by (simp add: overflow_loop.simps)
  next
    case False
    from snoc.IH [OF False] show ?thesis
      by (subst overflow_loop.simps) (simp add: False)
  qed
qed

lemma spec_scan_backward_run:
  "spec_scan_backward phase pts carry =
     (rev (dropWhile (\<lambda>p. spec_diff phase (azimuth p) < 18000) (rev pts)),
      carry @ takeWhile (\<lambda>p. spec_diff phase (azimuth p) < 18000) (rev pts))"
proof (induction pts arbitrary: carry rule: rev_induct)
  case Nil
  then show ?case by (simp add: spec_scan_backward.simps)
next
  case (snoc x xs)
  then show ?case by (subst spec_scan_backward.simps) simp
qed

lemma segment_conserves:
  assumes "segment sp pts ovf = Inr (kept, ovf')"
  shows "mset kept + mset (points ovf') = mset pts + mset (points ovf)"
proof (cases "pts = []")
  case True
  with assms show ?thesis by (simp add: segment_def)
next
  case False
  let ?D = "\<lambda>p. phase_diff_of (phase_of sp) (azimuth p) < 18000"
  from assms False
  have k: "kept = rev (dropWhile ?D (rev pts))"
    and o: "points ovf' = points ovf @ takeWhile ?D (rev pts)"
    by (auto simp: segment_def Let_def overflow_loop_run split: if_splits)
  have "mset (takeWhile ?D (rev pts)) + mset (dropWhile ?D (rev pts)) = mset (rev pts)"
    by (simp only: mset_append [symmetric] takeWhile_dropWhile_id)
  then have "mset (dropWhile ?D (rev pts)) + mset (takeWhile ?D (rev pts)) = mset pts"
    by (simp only: mset_rev add.commute)
  then show ?thesis by (simp add: k o)
qed

section \<open>Facts about one processing cycle\<close>

lemma processScan_unsubscribed:
  "\<not> has_cloud_subscriber subs \<Longrightarrow>
   processScan ext subs hdr packets node =
     (fst (publish_views ext subs node empty_cloud),
      Inr (node, snd (publish_views ext subs node empty_cloud)))"
  by (simp add: processScan_def has_cloud_subscriber_def)

lemma processScan_subscribed:
  "has_cloud_subscriber subs \<Longrightarrow>
   processScan ext subs hdr packets node =
     (case assemble_scan ext hdr packets node of
        (calls, Inl e) \<Rightarrow> (calls, Inl e)
      | (calls, Inr (node', scan)) \<Rightarrow>
          (calls @ fst (publish_views ext subs node' scan),
           Inr (node', snd (publish_views ext subs node' scan))))"
  unfolding processScan_def has_cloud_subscriber_def by (simp only: if_True)

lemma assemble_scan_calls:
  "fst (assemble_scan ext hdr packets node) =
     UnpackAll # (if save_test_vector node then [WriteInPackets, WriteOutPointClouds] else [])"
  by (simp add: assemble_scan_def Let_def)

lemma assemble_scan_result:
  "snd (assemble_scan ext hdr packets node) =
     (case segment (scan_phase (config node))
             (rev (points (overflow_buffer node)) @ unpack_all ext (data node) packets)
             ((overflow_buffer node)\<lparr>points := [], width := 0, height := 1\<rparr>) of
        Inl e \<Rightarrow> Inl e
      | Inr (kept, ovf') \<Rightarrow>
          (if kept = [] then Inl OutOfBounds
           else Inr (node\<lparr>overflow_buffer := ovf',
                          convert_frame_id := (if save_test_vector node
                                               then convert_frame_id node + 1
                                               else convert_frame_id node)\<rparr>,
                     \<lparr>header = hdr\<lparr>stamp :=
                                  toPCL_time ext (toChronoNanoSeconds (time_stamp (hd kept)))\<rparr>,
                      points = kept, width = length kept, height = 1\<rparr>)))"
  by (simp add: assemble_scan_def Let_def split: sum.splits prod.splits list.splits)

lemma publish_views_scan:
  "scan_points_xyziradt (snd (publish_views ext subs node scan)) = scan"
  by (simp add: publish_views_def Let_def)

lemma processScan_step:
  assumes "snd (processScan ext subs hdr packets node) = Inr (node', c)"
  shows "data node' = data node"
    and "mset (points (overflow_buffer node))
         + (if has_cloud_subscriber subs then mset (unpack_all ext (data node) packets) else {#})
         = mset (points (scan_points_xyziradt c)) + mset (points (overflow_buffer node'))"
proof -
  have "data node' = data node \<and>
        mset (points (overflow_buffer node))
         + (if has_cloud_subscriber subs then mset (unpack_all ext (data node) packets) else {#})
         = mset (points (scan_points_xyziradt c)) + mset (points (overflow_buffer node'))"
  proof (cases "has_cloud_subscriber subs")
    case False
    with assms have "node' = node" and "c = snd (publish_views ext subs node empty_cloud)"
      by (auto simp: processScan_unsubscribed)
    with False show ?thesis
      by (simp add: publish_views_scan empty_cloud_def)
  next
    case True
    let ?pts = "rev (points (overflow_buffer node)) @ unpack_all ext (data node) packets"
    let ?ovf = "(overflow_buffer node)\<lparr>points := [], width := 0, height := 1\<rparr>"
    obtain calls r where a: "assemble_scan ext hdr packets node = (calls, r)"
      by (cases "assemble_scan ext hdr packets node")
    with assms True obtain scan where r: "r = Inr (node', scan)"
      and c: "c = snd (publish_views ext subs node' scan)"
      by (auto simp: processScan_subscribed split: sum.splits)
    from a r have "snd (assemble_scan ext hdr packets node) = Inr (node', scan)" by simp
    then obtain kept ovf' where
      seg: "segment (scan_phase (config node)) ?pts ?ovf = Inr (kept, ovf')"
      and n: "overflow_buffer node' = ovf'" "data node' = data node"
      and s: "points scan = kept"
      unfolding assemble_scan_result by (auto split: sum.splits if_splits)
    from segment_conserves [OF seg] have
      "mset kept + mset (points ovf') = mset (points (overflow_buffer node))
         + mset (unpack_all ext (data node) packets)"
      by (simp add: ac_simps)
    then show ?thesis
      using True by (simp add: n s c publish_views_scan)
  qed
  then show "data node' = data node"
    and "mset (points (overflow_buffer node))
         + (if has_cloud_subscriber subs then mset (unpack_all ext (data node) packets) else {#})
         = mset (points (scan_points_xyziradt c)) + mset (points (overflow_buffer node'))"
    by simp_all
qed

text \<open>
  When every point of a non-empty buffer is below 18000 the loop empties the buffer and
  reads behind it; otherwise the segmenter returns.
\<close>

lemma segment_all_below:
  assumes "pts \<noteq> []"
    and "\<forall>p\<in>set pts. phase_diff_of (phase_of sp) (azimuth p) < 18000"
  shows "segment sp pts ovf = Inl OutOfBounds"
  using assms by (simp add: segment_def Let_def overflow_loop_run)

lemma segment_returns:
  assumes "pts = [] \<or> (\<exists>p\<in>set pts. 18000 \<le> phase_diff_of (phase_of sp) (azimuth p))"
  shows "\<exists>kept ovf'. segment sp pts ovf = Inr (kept, ovf')"
proof (cases "pts = []")
  case True
  then show ?thesis by (simp add: segment_def)
next
  case False
  with assms have "\<not> (\<forall>p\<in>set pts. phase_diff_of (phase_of sp) (azimuth p) < 18000)"
    by fastforce
  with False show ?thesis
    by (simp add: segment_def Let_def overflow_loop_run)
qed

lemma publish_views_calls:
  "ExtractValidPoints \<in> set (fst (publish_views ext subs node scan)) \<longleftrightarrow>
     0 < velodyne_points_pub subs \<or> 0 < velodyne_points_ex_pub subs
     \<or> 0 < velodyne_points_combined_ex_pub subs"
  "SortZeroIndex \<in> set (fst (publish_views ext subs node scan)) \<longleftrightarrow>
     0 < velodyne_points_invalid_near_pub subs \<or> 0 < velodyne_points_combined_ex_pub subs"
  "ExtractInvalidNearPointsFiltered \<in> set (fst (publish_views ext subs node scan)) \<longleftrightarrow>
     0 < velodyne_points_invalid_near_pub subs \<or> 0 < velodyne_points_combined_ex_pub subs"
  "CombineClouds \<in> set (fst (publish_views ext subs node scan)) \<longleftrightarrow>
     0 < velodyne_points_combined_ex_pub subs"
  by (auto simp: publish_views_def Let_def)

lemma publish_views_unsubscribed:
  "\<not> has_cloud_subscriber subs \<Longrightarrow>
   fst (publish_views ext subs node scan) =
     (if 0 < marker_array_pub subs then [Publish velodyne_model_marker] else [])"
  by (simp add: publish_views_def Let_def has_cloud_subscriber_def)

lemma processScan_calls:
  "set (fst (processScan ext subs hdr packets node)) \<subseteq>
     {UnpackAll, WriteInPackets, WriteOutPointClouds}
     \<union> (\<Union>n s. set (fst (publish_views ext subs n s)))"
proof (cases "has_cloud_subscriber subs")
  case False
  then show ?thesis by (auto simp: processScan_unsubscribed)
next
  case True
  obtain calls r where a: "assemble_scan ext hdr packets node = (calls, r)"
    by (cases "assemble_scan ext hdr packets node")
  then have "calls = fst (assemble_scan ext hdr packets node)" by simp
  then have c: "set calls \<subseteq> {UnpackAll, WriteInPackets, WriteOutPointClouds}"
    by (auto simp: assemble_scan_calls split: if_splits)
  show ?thesis
  proof (cases r)
    case (Inl e)
    with a c True show ?thesis by (auto simp: processScan_subscribed)
  next
    case (Inr ns)
    obtain n s where "ns = (n, s)" by (cases ns)
    with Inr a c True show ?thesis by (auto simp: processScan_subscribed)
  qed
qed

text \<open>A cycle with a subscriber that completes has a non-empty scan.\<close>

lemma processScan_scan_nonempty:
  assumes "snd (processScan ext subs hdr packets node) = Inr (node', c)"
    and "has_cloud_subscriber subs"
  shows "points (scan_points_xyziradt c) \<noteq> []"
proof -
  obtain calls r where a: "assemble_scan ext hdr packets node = (calls, r)"
    by (cases "assemble_scan ext hdr packets node")
  with assms obtain scan where r: "r = Inr (node', scan)"
    and c: "c = snd (publish_views ext subs node' scan)"
    by (auto simp: processScan_subscribed split: sum.splits)
  from a r have "snd (assemble_scan ext hdr packets node) = Inr (node', scan)" by simp
  then have "points scan \<noteq> []"
    unfolding assemble_scan_result by (auto split: sum.splits if_splits)
  then show ?thesis by (simp add: c publish_views_scan)
qed

lemma three_messages_run:
  "\<exists>node' c1 c2 c3. process_all sample_externals sample_node three_messages
       = Inr (node', [c1, c2, c3])
     \<and> points (overflow_buffer node') = [point_at 50 7]
     \<and> points (scan_points_xyziradt c1) = [point_at 35900 1]
     \<and> points (scan_points_xyziradt c2) = []
     \<and> points (scan_points_xyziradt c3)
         = [point_at 100 2, point_at 200 3, point_at 300 5, point_at 35950 6]"
  by (simp add: three_messages_def cycle_defs sample_defs sample_values)

text \<open>
  Where the source computes the specified phase and the buffer is empty or holds a point at
  or above 18000, the segmenter returns what the specified backward scan returns.
\<close>

lemma segment_matches_spec:
  assumes sp: "phase_of sp = spec_phase sp"
    and az: "\<forall>p\<in>set pts. 0 \<le> azimuth p \<and> azimuth p < 36000"
    and stop: "pts = [] \<or> (\<exists>p\<in>set pts. 18000 \<le> spec_diff (spec_phase sp) (azimuth p))"
  shows "\<exists>ovf'. segment sp pts ovf = Inr (fst (spec_segment pts sp), ovf')
               \<and> points ovf' = points ovf @ snd (spec_segment pts sp)"
proof (cases "pts = []")
  case True
  then show ?thesis
    by (simp add: segment_def spec_segment_def spec_scan_backward_run)
next
  case False
  let ?D = "\<lambda>p. phase_diff_of (phase_of sp) (azimuth p) < 18000"
  let ?S = "\<lambda>p. spec_diff (spec_phase sp) (azimuth p) < 18000"
  have same: "phase_diff_of (phase_of sp) (azimuth p) = spec_diff (spec_phase sp) (azimuth p)"
    if "p \<in> set pts" for p
  proof -
    from az that have "0 \<le> azimuth p" "azimuth p < 65536" by auto
    then have "phase_diff_of (phase_of sp) (azimuth p)
               = (36000 + azimuth p - phase_of sp) mod 36000"
      using phase_of_range [OF sp] by (rule phase_diff_of_eq)
    then show ?thesis by (simp add: spec_diff_def sp)
  qed
  then have tw: "takeWhile ?D (rev pts) = takeWhile ?S (rev pts)"
    by (intro takeWhile_cong) auto
  from same have dw: "dropWhile ?D (rev pts) = dropWhile ?S (rev pts)"
    by (intro dropWhile_cong) auto
  from stop False same have "\<not> (\<forall>p\<in>set pts. ?D p)" by fastforce
  then have "overflow_loop (phase_of sp) (phase_diff_of (phase_of sp) (azimuth (last pts)))
               pts (points ovf)
             = Inr (rev (dropWhile ?S (rev pts)), points ovf @ takeWhile ?S (rev pts))"
    by (simp only: overflow_loop_run [OF False] if_False tw dw)
  with False show ?thesis
    by (simp add: segment_def spec_segment_def spec_scan_backward_run)
qed

section \<open>The claims\<close>

subsection \<open>C1: the overflow loop on a buffer of deferred points\<close>

text \<open>
  C1 says that on a buffer whose points all have a phase difference below 18000 the loop
  stops at the exhausted buffer without reading an emptied buffer. The source does not:
  with scan phase 0 and the single point at azimuth 100 (difference 100) the loop moves the
  point, then reads \<^verbatim>\<open>back()\<close> of the emptied buffer before its condition tests the size.
\<close>

theorem overflow_loop_reads_emptied_buffer:
  "spec_diff (spec_phase 0) (azimuth (point_at 100 0)) < 18000
   \<and> segment 0 [point_at 100 0] (empty_cloud\<lparr>height := 1\<rparr>) = Inl OutOfBounds"
  by (simp add: cycle_defs sample_defs sample_values spec_diff_def spec_phase_def)

subsection \<open>C2: the stamp of an empty scan\<close>

text \<open>
  C2 says that a cycle whose closed scan is empty takes no first point. The source reads
  \<^verbatim>\<open>front()\<close> without a test: with a subscriber, an empty overflow buffer and a batch that
  decodes to no point, the scan is empty and the read is out of bounds.
\<close>

theorem empty_scan_reads_front:
  "processScan sample_externals points_only sample_header [] sample_node
     = ([UnpackAll], Inl OutOfBounds)"
  by (simp add: cycle_defs sample_defs sample_values)

subsection \<open>C3: which fields an update changes\<close>

text \<open>
  C3 says that an update changes exactly the fields it holds. In the source the four range
  and view parameters are read by calls joined with \<^verbatim>\<open>||\<close>, so a maximum range that comes
  with a minimum range is not read, and the invalid intensity array is rebuilt from zeros on
  every update: an update of both ranges leaves the maximum range at 130 and turns the
  array from 5, 5 into 0, 0.
\<close>

theorem paramCallback_skips_and_resets:
  "paramCallback [(''min_range'', PDouble 1), (''max_range'', PDouble 100)] sample_node
   = Inr (sample_node\<lparr>config := (config sample_node)\<lparr>min_range := 1\<rparr>,
                     invalid_intensity_array := [0, 0],
                     data := (data sample_node)\<lparr>raw_min_range := 1\<rparr>\<rparr>, True)"
  by (simp add: paramCallback_def range_view_params_def get_param_double_def get_param_int_def
      invalid_intensity_param_def setParameters_def getNumLasers_def sample_node_def
      empty_cloud_def numeral_2_eq_2)

subsection \<open>C4: the segmenter against the specified backward scan\<close>

text \<open>
  C4 says that the segmenter is the specified backward scan, which moves the last point
  while the buffer is non-empty and the difference is below 18000, and stops at the
  exhausted buffer. The source differs where the scan exhausts the buffer: with phase 0 and
  the azimuths 100 and 200 the specified scan closes an empty scan and carries both points
  over, and the source reads \<^verbatim>\<open>back()\<close> of the emptied buffer. On the scenario of the
  claim, the azimuths 100, 200, 35900, 35950, both keep all four points.
\<close>

theorem segment_faults_where_spec_defers:
  "spec_segment [point_at 100 1, point_at 200 2] 0 = ([], [point_at 200 2, point_at 100 1])
   \<and> segment 0 [point_at 100 1, point_at 200 2] (empty_cloud\<lparr>height := 1\<rparr>)
       = Inl OutOfBounds
   \<and> spec_segment [point_at 100 1, point_at 200 2, point_at 35900 3, point_at 35950 4] 0
       = ([point_at 100 1, point_at 200 2, point_at 35900 3, point_at 35950 4], [])
   \<and> segment 0 [point_at 100 1, point_at 200 2, point_at 35900 3, point_at 35950 4]
         (empty_cloud\<lparr>height := 1\<rparr>)
       = Inr ([point_at 100 1, point_at 200 2, point_at 35900 3, point_at 35950 4],
              empty_cloud\<lparr>height := 1\<rparr>)"
  by (simp add: cycle_defs sample_defs sample_values spec_segment_def spec_phase_def spec_diff_def
      spec_scan_backward.simps)

subsection \<open>C5: conservation of points\<close>

text \<open>
  C5. Over any run of processing cycles that complete, the points in the overflow buffer
  at the start together with the points decoded by the cycles that reach the segmenter are,
  as a multiset, the points of the closed scans together with the overflow buffer after the
  last cycle: the segmenter neither creates nor destroys a point.
\<close>

theorem conservation_across_cycles:
  assumes "process_all ext node msgs = Inr (node', cycles)"
  shows "mset (points (overflow_buffer node)) + decoded_in ext (data node) msgs =
         mset (concat (map (\<lambda>c. points (scan_points_xyziradt c)) cycles))
         + mset (points (overflow_buffer node'))"
  using assms
proof (induction msgs arbitrary: node cycles)
  case Nil
  then show ?case by simp
next
  case (Cons m msgs)
  obtain subs hdr packets where m: "m = (subs, hdr, packets)" by (cases m)
  from Cons.prems m obtain n1 c cs where
    step: "snd (processScan ext subs hdr packets node) = Inr (n1, c)"
    and rest: "process_all ext n1 msgs = Inr (node', cs)"
    and cyc: "cycles = c # cs"
    by (auto split: sum.splits)
  define fed where
    "fed = (if has_cloud_subscriber subs then mset (unpack_all ext (data node) packets) else {#})"
  define later where "later = decoded_in ext (data node) msgs"
  define emitted where "emitted = mset (concat (map (\<lambda>c. points (scan_points_xyziradt c)) cs))"
  have d: "data n1 = data node" by (rule processScan_step(1) [OF step])
  have one: "mset (points (overflow_buffer node)) + fed =
             mset (points (scan_points_xyziradt c)) + mset (points (overflow_buffer n1))"
    unfolding fed_def by (rule processScan_step(2) [OF step])
  have more: "mset (points (overflow_buffer n1)) + later =
              emitted + mset (points (overflow_buffer node'))"
    unfolding later_def emitted_def using Cons.IH [OF rest] by (simp only: d)
  have "mset (points (overflow_buffer node)) + (fed + later) =
        (mset (points (overflow_buffer node)) + fed) + later"
    by (simp only: add.assoc)
  also have "\<dots> = mset (points (scan_points_xyziradt c))
                   + (mset (points (overflow_buffer n1)) + later)"
    by (simp only: one add.assoc)
  also have "\<dots> = (mset (points (scan_points_xyziradt c)) + emitted)
                   + mset (points (overflow_buffer node'))"
    by (simp only: more add.assoc)
  finally have "mset (points (overflow_buffer node)) + (fed + later) =
        (mset (points (scan_points_xyziradt c)) + emitted)
        + mset (points (overflow_buffer node'))" .
  then show ?case
    by (simp add: m cyc fed_def later_def emitted_def)
qed

theorem conservation_across_cycles_witness:
  "\<exists>node' cycles.
     process_all sample_externals sample_node three_messages = Inr (node', cycles)
     \<and> map (\<lambda>c. points (scan_points_xyziradt c)) cycles =
         [[point_at 35900 1], [],
          [point_at 100 2, point_at 200 3, point_at 300 5, point_at 35950 6]]
     \<and> points (overflow_buffer node') = [point_at 50 7]
     \<and> mset (points (overflow_buffer sample_node))
         + decoded_in sample_externals (data sample_node) three_messages =
         mset (concat (map (\<lambda>c. points (scan_points_xyziradt c)) cycles))
         + mset (points (overflow_buffer node'))"
proof -
  from three_messages_run obtain node' c1 c2 c3 where
    run: "process_all sample_externals sample_node three_messages = Inr (node', [c1, c2, c3])"
    and rest: "points (overflow_buffer node') = [point_at 50 7]"
      "points (scan_points_xyziradt c1) = [point_at 35900 1]"
      "points (scan_points_xyziradt c2) = []"
      "points (scan_points_xyziradt c3)
         = [point_at 100 2, point_at 200 3, point_at 300 5, point_at 35950 6]"
    by blast
  from rest have "map (\<lambda>c. points (scan_points_xyziradt c)) [c1, c2, c3] =
         [[point_at 35900 1], [],
          [point_at 100 2, point_at 200 3, point_at 300 5, point_at 35950 6]]"
    by simp
  with run rest(1) conservation_across_cycles [OF run]
  have "process_all sample_externals sample_node three_messages = Inr (node', [c1, c2, c3])
     \<and> map (\<lambda>c. points (scan_points_xyziradt c)) [c1, c2, c3] =
         [[point_at 35900 1], [],
          [point_at 100 2, point_at 200 3, point_at 300 5, point_at 35950 6]]
     \<and> points (overflow_buffer node') = [point_at 50 7]
     \<and> mset (points (overflow_buffer sample_node))
         + decoded_in sample_externals (data sample_node) three_messages =
         mset (concat (map (\<lambda>c. points (scan_points_xyziradt c)) [c1, c2, c3]))
         + mset (points (overflow_buffer node'))"
    by (intro conjI)
  then show ?thesis by (intro exI)
qed

subsection \<open>C6: demand gating\<close>

text \<open>
  C6. In every cycle, completed or not, the range extraction is not called unless the
  points, extended or combined output has a subscriber, the ring sort and the near
  extraction are not called unless the near or combined output has one, and the merge is
  not done unless the combined output has one. With no subscriber on the four point cloud
  outputs the cycle calls nothing but the marker publisher.
\<close>

theorem demand_gating:
  "(\<not> (0 < velodyne_points_pub subs \<or> 0 < velodyne_points_ex_pub subs
        \<or> 0 < velodyne_points_combined_ex_pub subs) \<longrightarrow>
      ExtractValidPoints \<notin> set (fst (processScan ext subs hdr packets node)))
   \<and> (\<not> (0 < velodyne_points_invalid_near_pub subs
           \<or> 0 < velodyne_points_combined_ex_pub subs) \<longrightarrow>
      SortZeroIndex \<notin> set (fst (processScan ext subs hdr packets node))
      \<and> ExtractInvalidNearPointsFiltered \<notin> set (fst (processScan ext subs hdr packets node)))
   \<and> (\<not> 0 < velodyne_points_combined_ex_pub subs \<longrightarrow>
      CombineClouds \<notin> set (fst (processScan ext subs hdr packets node)))
   \<and> (\<not> has_cloud_subscriber subs \<longrightarrow>
      fst (processScan ext subs hdr packets node) =
        (if 0 < marker_array_pub subs then [Publish velodyne_model_marker] else []))"
proof -
  note sub = processScan_calls [of ext subs hdr packets node]
  have v: "ExtractValidPoints \<notin> set (fst (processScan ext subs hdr packets node))"
    if "\<not> (0 < velodyne_points_pub subs \<or> 0 < velodyne_points_ex_pub subs
           \<or> 0 < velodyne_points_combined_ex_pub subs)"
    using sub that by (auto simp: publish_views_calls)
  have n: "SortZeroIndex \<notin> set (fst (processScan ext subs hdr packets node))
           \<and> ExtractInvalidNearPointsFiltered \<notin> set (fst (processScan ext subs hdr packets node))"
    if "\<not> (0 < velodyne_points_invalid_near_pub subs \<or> 0 < velodyne_points_combined_ex_pub subs)"
    using sub that by (auto simp: publish_views_calls)
  have c: "CombineClouds \<notin> set (fst (processScan ext subs hdr packets node))"
    if "\<not> 0 < velodyne_points_combined_ex_pub subs"
    using sub that by (auto simp: publish_views_calls)
  have z: "fst (processScan ext subs hdr packets node) =
        (if 0 < marker_array_pub subs then [Publish velodyne_model_marker] else [])"
    if "\<not> has_cloud_subscriber subs"
    using that by (simp add: processScan_unsubscribed publish_views_unsubscribed)
  from v n c z show ?thesis by blast
qed

theorem demand_gating_witness:
  "fst (processScan sample_externals no_subscribers sample_header [[point_at 100 1]] sample_node)
     = []
   \<and> fst (processScan sample_externals near_only sample_header
            [[point_at 35900 1, point_at 100 2]] sample_node)
     = [UnpackAll, SortZeroIndex, ExtractInvalidNearPointsFiltered, ConvertXYZIR,
        Publish velodyne_points_invalid_near]
   \<and> ExtractValidPoints \<notin> set (fst (processScan sample_externals near_only sample_header
            [[point_at 35900 1, point_at 100 2]] sample_node))
   \<and> CombineClouds \<notin> set (fst (processScan sample_externals near_only sample_header
            [[point_at 35900 1, point_at 100 2]] sample_node))"
proof -
  have a: "\<not> has_cloud_subscriber no_subscribers"
    by (simp add: has_cloud_subscriber_def no_subscribers_def)
  have b: "marker_array_pub no_subscribers = 0" by (simp add: no_subscribers_def)
  have c: "\<not> (0 < velodyne_points_pub near_only \<or> 0 < velodyne_points_ex_pub near_only
        \<or> 0 < velodyne_points_combined_ex_pub near_only)"
    by (simp add: near_only_def no_subscribers_def)
  have d: "fst (processScan sample_externals near_only sample_header
            [[point_at 35900 1, point_at 100 2]] sample_node)
     = [UnpackAll, SortZeroIndex, ExtractInvalidNearPointsFiltered, ConvertXYZIR,
        Publish velodyne_points_invalid_near]"
    by (simp add: cycle_defs sample_defs sample_values)
  from demand_gating [of no_subscribers sample_externals sample_header "[[point_at 100 1]]"
      sample_node]
    demand_gating [of near_only sample_externals sample_header
      "[[point_at 35900 1, point_at 100 2]]" sample_node]
  show ?thesis using a b c d by simp
qed

subsection \<open>C7: the combined view\<close>

text \<open>
  C7. Whenever a cycle publishes the combined view, its points are the points of the
  range-valid cloud followed by those of the near-invalid cloud, its height is 1 and its
  header is that of the range-valid cloud, which is the cloud the extended output carries.
  Its width is the number of its points: the sum of the two widths when each extractor
  returns a cloud whose width is its number of points.
\<close>

theorem combined_view:
  assumes run: "snd (processScan ext subs hdr packets node) = Inr (node', c)"
    and pub: "msg_velodyne_points_combined_ex c = Some comb"
    and wv: "width (valid_points_xyziradt c) = length (points (valid_points_xyziradt c))"
    and wn: "width (invalid_near_points_filtered_xyziradt c)
             = length (points (invalid_near_points_filtered_xyziradt c))"
  shows "points comb = points (valid_points_xyziradt c)
                       @ points (invalid_near_points_filtered_xyziradt c)
       \<and> width comb = width (valid_points_xyziradt c)
                      + width (invalid_near_points_filtered_xyziradt c)
       \<and> height comb = 1
       \<and> header comb = header (valid_points_xyziradt c)
       \<and> valid_points_xyziradt c =
           extractValidPoints ext (scan_points_xyziradt c) (getMinRange (data node))
             (getMaxRange (data node))
       \<and> invalid_near_points_filtered_xyziradt c =
           extractInvalidNearPointsFiltered ext
             (sortZeroIndex ext (scan_points_xyziradt c) (getNumLasers (data node)))
             (invalid_intensity_array node) (getNumLasers (data node))
             (num_points_threshold node)
       \<and> (\<forall>v. msg_velodyne_points_ex c = Some v \<longrightarrow> v = valid_points_xyziradt c)"
proof -
  obtain n scan where c: "c = snd (publish_views ext subs n scan)"
    and d: "data n = data node"
    and i: "invalid_intensity_array n = invalid_intensity_array node"
    and t: "num_points_threshold n = num_points_threshold node"
  proof (cases "has_cloud_subscriber subs")
    case False
    with run have "c = snd (publish_views ext subs node empty_cloud)"
      by (auto simp: processScan_unsubscribed)
    then show ?thesis by (rule that) simp_all
  next
    case True
    obtain calls r where a: "assemble_scan ext hdr packets node = (calls, r)"
      by (cases "assemble_scan ext hdr packets node")
    with run True obtain scan where r: "r = Inr (node', scan)"
      and c: "c = snd (publish_views ext subs node' scan)"
      by (auto simp: processScan_subscribed split: sum.splits)
    from a r have "snd (assemble_scan ext hdr packets node) = Inr (node', scan)" by simp
    then have "data node' = data node"
      "invalid_intensity_array node' = invalid_intensity_array node"
      "num_points_threshold node' = num_points_threshold node"
      unfolding assemble_scan_result by (auto split: sum.splits if_splits)
    with c show ?thesis by (rule that)
  qed
  from pub have sub: "0 < velodyne_points_combined_ex_pub subs"
    unfolding c by (simp add: publish_views_def Let_def split: if_splits)
  have shape: "comb = empty_cloud\<lparr>points := points (valid_points_xyziradt c)
                                          @ points (invalid_near_points_filtered_xyziradt c),
                                 header := header (valid_points_xyziradt c),
                                 height := 1,
                                 width := length (points (valid_points_xyziradt c)
                                          @ points (invalid_near_points_filtered_xyziradt c))\<rparr>"
    using pub sub unfolding c by (simp add: publish_views_def Let_def)
  have v: "valid_points_xyziradt c =
           extractValidPoints ext (scan_points_xyziradt c) (getMinRange (data node))
             (getMaxRange (data node))"
    using sub unfolding c by (simp add: publish_views_def Let_def d)
  have nr: "invalid_near_points_filtered_xyziradt c =
           extractInvalidNearPointsFiltered ext
             (sortZeroIndex ext (scan_points_xyziradt c) (getNumLasers (data node)))
             (invalid_intensity_array node) (getNumLasers (data node))
             (num_points_threshold node)"
    using sub unfolding c by (simp add: publish_views_def Let_def d i t)
  have ex: "\<forall>v. msg_velodyne_points_ex c = Some v \<longrightarrow> v = valid_points_xyziradt c"
    unfolding c by (simp add: publish_views_def Let_def)
  have "points comb = points (valid_points_xyziradt c)
                       @ points (invalid_near_points_filtered_xyziradt c)"
    "width comb = width (valid_points_xyziradt c)
                      + width (invalid_near_points_filtered_xyziradt c)"
    "height comb = 1" "header comb = header (valid_points_xyziradt c)"
    by (simp_all add: shape wv wn)
  with v nr ex show ?thesis by blast
qed

theorem combined_view_witness:
  "\<exists>node' c comb.
     snd (processScan sample_externals combined_only sample_header two_points sample_node)
       = Inr (node', c)
     \<and> msg_velodyne_points_combined_ex c = Some comb
     \<and> points comb = [point_at 35900 1, (point_at 35950 2)\<lparr>distance := 0\<rparr>]
     \<and> width comb = 1 + 1 \<and> height comb = 1
     \<and> header comb = sample_header\<lparr>stamp := 1000000\<rparr>"
proof -
  let ?r = "snd (processScan sample_externals combined_only sample_header two_points
                  sample_node)"
  have "\<exists>node' c. ?r = Inr (node', c)
      \<and> msg_velodyne_points_combined_ex c \<noteq> None
      \<and> points (valid_points_xyziradt c) = [point_at 35900 1]
      \<and> width (valid_points_xyziradt c) = 1
      \<and> points (invalid_near_points_filtered_xyziradt c) = [(point_at 35950 2)\<lparr>distance := 0\<rparr>]
      \<and> width (invalid_near_points_filtered_xyziradt c) = 1
      \<and> header (valid_points_xyziradt c) = sample_header\<lparr>stamp := 1000000\<rparr>"
    by (simp add: cycle_defs sample_defs sample_values two_points_def)
  then obtain node' c comb where r: "?r = Inr (node', c)"
    and m: "msg_velodyne_points_combined_ex c = Some comb"
    and v: "points (valid_points_xyziradt c) = [point_at 35900 1]"
           "width (valid_points_xyziradt c) = 1"
    and n: "points (invalid_near_points_filtered_xyziradt c)
            = [(point_at 35950 2)\<lparr>distance := 0\<rparr>]"
           "width (invalid_near_points_filtered_xyziradt c) = 1"
    and h: "header (valid_points_xyziradt c) = sample_header\<lparr>stamp := 1000000\<rparr>"
    by auto
  from combined_view [OF r m] v n h
  have "points comb = [point_at 35900 1, (point_at 35950 2)\<lparr>distance := 0\<rparr>]
     \<and> width comb = 1 + 1 \<and> height comb = 1
     \<and> header comb = sample_header\<lparr>stamp := 1000000\<rparr>"
    by simp
  with r m show ?thesis by blast
qed

subsection \<open>C8: the metadata of the scan\<close>

text \<open>
  C8. When a cycle with a subscriber cuts a non-empty closed scan, the cycle completes and
  the header of the scan is the header of the message with the stamp of the first point of
  the scan: its time stamp in seconds times 1e9 as a double, truncated to whole
  nanoseconds, and converted to a PCL stamp. No other point bears on the stamp. The height
  of the scan is 1 and its width is the number of its points.
\<close>

theorem scan_metadata:
  assumes sub: "has_cloud_subscriber subs"
    and seg: "segment (scan_phase (config node))
                (rev (points (overflow_buffer node)) @ unpack_all ext (data node) packets)
                ((overflow_buffer node)\<lparr>points := [], width := 0, height := 1\<rparr>)
              = Inr (kept, ovf')"
    and ne: "kept \<noteq> []"
  shows "\<exists>node' c. snd (processScan ext subs hdr packets node) = Inr (node', c)
           \<and> points (scan_points_xyziradt c) = kept
           \<and> header (scan_points_xyziradt c)
               = hdr\<lparr>stamp := toPCL_time ext
                   (if 0 \<le> to_double (time_stamp (hd kept) * 1000000000)
                    then \<lfloor>to_double (time_stamp (hd kept) * 1000000000)\<rfloor>
                    else \<lceil>to_double (time_stamp (hd kept) * 1000000000)\<rceil>)\<rparr>
           \<and> height (scan_points_xyziradt c) = 1
           \<and> width (scan_points_xyziradt c) = length kept"
proof -
  let ?ns = "if 0 \<le> to_double (time_stamp (hd kept) * 1000000000)
             then \<lfloor>to_double (time_stamp (hd kept) * 1000000000)\<rfloor>
             else \<lceil>to_double (time_stamp (hd kept) * 1000000000)\<rceil>"
  have ns: "toChronoNanoSeconds (time_stamp (hd kept)) = ?ns"
    by (simp only: toChronoNanoSeconds_def)
  obtain calls r where a: "assemble_scan ext hdr packets node = (calls, r)"
    by (cases "assemble_scan ext hdr packets node")
  have "snd (assemble_scan ext hdr packets node) =
      Inr (node\<lparr>overflow_buffer := ovf',
                convert_frame_id := (if save_test_vector node then convert_frame_id node + 1
                                     else convert_frame_id node)\<rparr>,
      \<lparr>header = hdr\<lparr>stamp := toPCL_time ext (toChronoNanoSeconds (time_stamp (hd kept)))\<rparr>,
       points = kept, width = length kept, height = 1\<rparr>)"
    by (simp only: assemble_scan_result seg sum.case prod.case ne if_False)
  with a obtain n where r: "r = Inr (n,
      \<lparr>header = hdr\<lparr>stamp := toPCL_time ext ?ns\<rparr>,
       points = kept, width = length kept, height = 1\<rparr>)"
    by (simp only: ns snd_conv)
  from sub a r show ?thesis
    by (simp add: processScan_subscribed publish_views_scan)
qed

theorem scan_metadata_witness:
  "\<exists>node' c. snd (processScan sample_externals points_only sample_header epoch_points
                    sample_node) = Inr (node', c)
     \<and> points (scan_points_xyziradt c)
         = [point_at 35900 (6400000001 / 4), point_at 35950 (6400000003 / 4)]
     \<and> header (scan_points_xyziradt c) = sample_header\<lparr>stamp := 1600000000249999\<rparr>
     \<and> height (scan_points_xyziradt c) = 1
     \<and> width (scan_points_xyziradt c) = 2"
proof -
  let ?kept = "[point_at 35900 (6400000001 / 4), point_at 35950 (6400000003 / 4)]"
  have sub: "has_cloud_subscriber points_only"
    by (simp add: has_cloud_subscriber_def points_only_def no_subscribers_def)
  have seg: "segment (scan_phase (config sample_node))
                (rev (points (overflow_buffer sample_node))
                 @ unpack_all sample_externals (data sample_node) epoch_points)
                ((overflow_buffer sample_node)\<lparr>points := [], width := 0, height := 1\<rparr>)
              = Inr (?kept, empty_cloud\<lparr>points := [point_at 100 (6400000005 / 4)],
                                         width := 1, height := 1\<rparr>)"
    by (simp add: cycle_defs sample_defs sample_values)
  have ne: "?kept \<noteq> []" by simp
  have first: "time_stamp (hd ?kept) * 1000000000 = (1600000000 + 1 / 4) * 1000000000"
    by (simp add: point_at_def)
  have st: "toPCL_time sample_externals
              (if 0 \<le> to_double (time_stamp (hd ?kept) * 1000000000)
               then \<lfloor>to_double (time_stamp (hd ?kept) * 1000000000)\<rfloor>
               else \<lceil>to_double (time_stamp (hd ?kept) * 1000000000)\<rceil>)
            = 1600000000249999"
    by (simp only: first to_double_samples) (simp add: sample_externals_def)
  from scan_metadata [OF sub seg ne, of sample_header]
  obtain node' c where
    r: "snd (processScan sample_externals points_only sample_header epoch_points sample_node)
        = Inr (node', c)"
    and p: "points (scan_points_xyziradt c) = ?kept"
    and s: "header (scan_points_xyziradt c)
            = sample_header\<lparr>stamp := toPCL_time sample_externals
                (if 0 \<le> to_double (time_stamp (hd ?kept) * 1000000000)
                 then \<lfloor>to_double (time_stamp (hd ?kept) * 1000000000)\<rfloor>
                 else \<lceil>to_double (time_stamp (hd ?kept) * 1000000000)\<rceil>)\<rparr>"
    and h: "height (scan_points_xyziradt c) = 1"
    and w: "width (scan_points_xyziradt c) = length ?kept"
    by blast
  from s have "header (scan_points_xyziradt c) = sample_header\<lparr>stamp := 1600000000249999\<rparr>"
    by (simp only: st)
  moreover from w have "width (scan_points_xyziradt c) = 2" by simp
  ultimately show ?thesis using r p h by blast
qed

subsection \<open>C10: a cycle without subscribers\<close>

text \<open>
  C10. When none of the four point cloud outputs has a subscriber, the cycle completes
  with the node unchanged (the overflow buffer with it), it does not call the decoder, its
  scan is the empty default cloud, it publishes no point cloud, and its result is the same
  for any other packet batch.
\<close>

theorem unsubscribed_cycle:
  assumes "velodyne_points_pub subs = 0" "velodyne_points_ex_pub subs = 0"
    "velodyne_points_invalid_near_pub subs = 0" "velodyne_points_combined_ex_pub subs = 0"
  shows "(\<exists>c. snd (processScan ext subs hdr packets node) = Inr (node, c)
              \<and> scan_points_xyziradt c = empty_cloud
              \<and> msg_velodyne_points c = None \<and> msg_velodyne_points_ex c = None
              \<and> msg_velodyne_points_invalid_near c = None
              \<and> msg_velodyne_points_combined_ex c = None)
       \<and> UnpackAll \<notin> set (fst (processScan ext subs hdr packets node))
       \<and> processScan ext subs hdr packets node = processScan ext subs hdr other_packets node"
proof -
  from assms have no: "\<not> has_cloud_subscriber subs"
    by (simp add: has_cloud_subscriber_def)
  have c: "fst (processScan ext subs hdr packets node) =
        (if 0 < marker_array_pub subs then [Publish velodyne_model_marker] else [])"
    using no by (simp add: processScan_unsubscribed publish_views_unsubscribed)
  have v: "msg_velodyne_points (snd (publish_views ext subs node empty_cloud)) = None
     \<and> msg_velodyne_points_ex (snd (publish_views ext subs node empty_cloud)) = None
     \<and> msg_velodyne_points_invalid_near (snd (publish_views ext subs node empty_cloud)) = None
     \<and> msg_velodyne_points_combined_ex (snd (publish_views ext subs node empty_cloud)) = None"
    using assms by (simp add: publish_views_def Let_def)
  from no v c show ?thesis
    by (simp add: processScan_unsubscribed publish_views_scan)
qed

theorem unsubscribed_cycle_witness:
  "(\<exists>c. snd (processScan sample_externals (no_subscribers\<lparr>marker_array_pub := 1\<rparr>)
               sample_header two_points sample_node) = Inr (sample_node, c)
        \<and> scan_points_xyziradt c = empty_cloud)
   \<and> UnpackAll \<notin> set (fst (processScan sample_externals (no_subscribers\<lparr>marker_array_pub := 1\<rparr>)
               sample_header two_points sample_node))
   \<and> processScan sample_externals (no_subscribers\<lparr>marker_array_pub := 1\<rparr>) sample_header
       two_points sample_node
     = processScan sample_externals (no_subscribers\<lparr>marker_array_pub := 1\<rparr>) sample_header
       [] sample_node"
proof -
  let ?s = "no_subscribers\<lparr>marker_array_pub := 1\<rparr>"
  have z: "velodyne_points_pub ?s = 0" "velodyne_points_ex_pub ?s = 0"
    "velodyne_points_invalid_near_pub ?s = 0" "velodyne_points_combined_ex_pub ?s = 0"
    by (simp_all add: no_subscribers_def)
  from unsubscribed_cycle [OF z, of sample_externals sample_header two_points sample_node "[]"]
  show ?thesis by blast
qed

end
